theory Spec2Isabelle
  imports Main
begin

section \<open>Entity model\<close>

text \<open>
  The three classes of \<^verbatim>\<open>main.py\<close>. Python strings are \<^typ>\<open>string\<close>. The private
  list \<^verbatim>\<open>__articles\<close> of an author or a category holds references to Article objects,
  which themselves refer back to the author and the category; an entry of the list is
  represented by the two fields of the article fixed at construction, its title and its
  content. The list has no accessor and is never read.
\<close>

type_synonym article_ref = "string \<times> string"

record Author =
  Author_name :: string
  Author_email :: string
  Author_articles :: "article_ref list"

record Category =
  Category_name :: string
  Category_articles :: "article_ref list"

text \<open>The value of \<^verbatim>\<open>datetime.now()\<close>: the clock is an input of the model.\<close>

record datetime =
  year :: nat
  month :: nat
  day :: nat
  hour :: nat
  minute :: nat
  second :: nat
  microsecond :: nat

record Article =
  Article_title :: string
  Article_content :: string
  Article_author :: Author
  Article_category :: Category
  Article_published_at :: "datetime option"

definition Author_init :: "string \<Rightarrow> string \<Rightarrow> Author" where
  "Author_init name email =
     \<lparr>Author_name = name, Author_email = email, Author_articles = []\<rparr>"

definition Author_add_article :: "Author \<Rightarrow> article_ref \<Rightarrow> Author" where
  "Author_add_article self article =
     self\<lparr>Author_articles := Author_articles self @ [article]\<rparr>"

definition Category_init :: "string \<Rightarrow> Category" where
  "Category_init name = \<lparr>Category_name = name, Category_articles = []\<rparr>"

definition Category_add_article :: "Category \<Rightarrow> article_ref \<Rightarrow> Category" where
  "Category_add_article self article =
     self\<lparr>Category_articles := Category_articles self @ [article]\<rparr>"

text \<open>
  The constructor of Article registers the new article with its author and its category,
  which it mutates: the model returns the article together with the updated author and
  category, and the article refers to the updated objects.
\<close>

definition Article_init ::
  "string \<Rightarrow> string \<Rightarrow> Author \<Rightarrow> Category \<Rightarrow> Article \<times> Author \<times> Category" where
  "Article_init title content author category =
     (let author' = Author_add_article author (title, content);
          category' = Category_add_article category (title, content)
      in (\<lparr>Article_title = title, Article_content = content, Article_author = author',
           Article_category = category', Article_published_at = None\<rparr>,
          author', category'))"

definition publish :: "Article \<Rightarrow> datetime \<Rightarrow> Article" where
  "publish self now = self\<lparr>Article_published_at := Some now\<rparr>"

section \<open>Factories\<close>

text \<open>
  A dictionary is a map. \<^verbatim>\<open>get_or_create_author\<close> mutates the dictionary it is given:
  the model returns the author together with the dictionary after the call.
\<close>

definition get_or_create_author ::
  "string \<Rightarrow> string \<Rightarrow> (string \<rightharpoonup> Author) \<Rightarrow> Author \<times> (string \<rightharpoonup> Author)" where
  "get_or_create_author name email authors =
     (case authors email of
        Some a \<Rightarrow> (a, authors)
      | None \<Rightarrow> (let author = Author_init name email
                 in (author, authors(email \<mapsto> author))))"

definition get_or_create_category ::
  "string \<Rightarrow> (string \<rightharpoonup> Category) \<Rightarrow> Category \<times> (string \<rightharpoonup> Category)" where
  "get_or_create_category name categories =
     (case categories name of
        Some c \<Rightarrow> (c, categories)
      | None \<Rightarrow> (let category = Category_init name
                 in (category, categories(name \<mapsto> category))))"

definition create_article ::
  "string \<Rightarrow> string \<Rightarrow> Author \<Rightarrow> Category \<Rightarrow> datetime \<Rightarrow> Article \<times> Author \<times> Category" where
  "create_article title content author category now =
     (case Article_init title content author category of
        (article, author', category') \<Rightarrow> (publish article now, author', category'))"

text \<open>
  Any number of calls of \<^verbatim>\<open>get_or_create_author\<close> with one email, one call for each
  name of the list, on the dictionary the call before left: the authors returned, in
  call order, and the dictionary after the last call.
\<close>

fun get_or_create_author_calls ::
  "string list \<Rightarrow> string \<Rightarrow> (string \<rightharpoonup> Author) \<Rightarrow> Author list \<times> (string \<rightharpoonup> Author)" where
  "get_or_create_author_calls [] email authors = ([], authors)"
| "get_or_create_author_calls (name # names) email authors =
     (case get_or_create_author name email authors of
        (a, authors') \<Rightarrow>
          (case get_or_create_author_calls names email authors' of
             (as, authors'') \<Rightarrow> (a # as, authors'')))"

section \<open>The catalog document\<close>

text \<open>
  \<^verbatim>\<open>self.data\<close> is the dictionary that \<^verbatim>\<open>json.load\<close> returns: three lists of
  dictionaries with string values. Each kind of dictionary is a record with one field for
  each key.
\<close>

record author_rec =
  au_name :: string
  au_email :: string

record category_rec =
  ca_name :: string

record article_rec =
  title :: string
  content :: string
  author :: string
  category :: string
  published_at :: string

record document =
  authors :: "author_rec list"
  categories :: "category_rec list"
  articles :: "article_rec list"

definition empty_document :: document where
  "empty_document = \<lparr>authors = [], categories = [], articles = []\<rparr>"

section \<open>Files\<close>

text \<open>
  What \<^verbatim>\<open>open\<close> finds at a path: no file in an existing directory, no directory for
  the file, a file that the process may not open, or a file with its text. Opening for
  writing creates a file that is absent, but not its directory: \<^verbatim>\<open>open\<close> then raises
  \<^verbatim>\<open>FileNotFoundError\<close>, as it does when reading. Exceptions are values of \<open>error\<close>.
\<close>

datatype file_state = Absent | NoDirectory | Denied | Content string

type_synonym storage = "string \<Rightarrow> file_state"

datatype error = FileNotFoundError | PermissionError | JSONDecodeError | AttributeError

definition open_r :: "storage \<Rightarrow> string \<Rightarrow> error + string" where
  "open_r fs path =
     (case fs path of
        Absent \<Rightarrow> Inl FileNotFoundError
      | NoDirectory \<Rightarrow> Inl FileNotFoundError
      | Denied \<Rightarrow> Inl PermissionError
      | Content text \<Rightarrow> Inr text)"

definition open_w :: "storage \<Rightarrow> string \<Rightarrow> string \<Rightarrow> error + storage" where
  "open_w fs path text =
     (case fs path of
        NoDirectory \<Rightarrow> Inl FileNotFoundError
      | Denied \<Rightarrow> Inl PermissionError
      | _ \<Rightarrow> Inr (fs(path := Content text)))"

section \<open>The facade\<close>

record manager =
  filepath :: string
  data :: document
  self_authors :: "string \<rightharpoonup> Author"
  self_categories :: "string \<rightharpoonup> Category"

text \<open>
  \<^verbatim>\<open>json.load\<close> and \<^verbatim>\<open>json.dump\<close> belong to the Python library: they are the
  parameters \<open>json_load\<close> (\<open>None\<close> when it raises \<^verbatim>\<open>JSONDecodeError\<close>) and
  \<open>json_dump\<close> (the text written for a document, with \<^verbatim>\<open>indent=4\<close>). \<^verbatim>\<open>load\<close> reads
  only \<^verbatim>\<open>self.filepath\<close>, and catches only \<^verbatim>\<open>FileNotFoundError\<close>.
\<close>

definition load :: "(string \<Rightarrow> document option) \<Rightarrow> string \<Rightarrow> storage \<Rightarrow> error + document" where
  "load json_load path fs =
     (case open_r fs path of
        Inl FileNotFoundError \<Rightarrow> Inr empty_document
      | Inl e \<Rightarrow> Inl e
      | Inr text \<Rightarrow>
          (case json_load text of
             None \<Rightarrow> Inl JSONDecodeError
           | Some d \<Rightarrow> Inr d))"

definition save :: "(document \<Rightarrow> string) \<Rightarrow> manager \<Rightarrow> storage \<Rightarrow> error + storage" where
  "save json_dump self fs = open_w fs (filepath self) (json_dump (data self))"

text \<open>
  The constructor: a dictionary comprehension inserts the entries in list order, a later
  entry with the same key replacing an earlier one.
\<close>

definition CatalogManager_init ::
  "(string \<Rightarrow> document option) \<Rightarrow> string \<Rightarrow> storage \<Rightarrow> error + manager" where
  "CatalogManager_init json_load path fs =
     (case load json_load path fs of
        Inl e \<Rightarrow> Inl e
      | Inr d \<Rightarrow>
          Inr \<lparr>filepath = path, data = d,
               self_authors =
                 foldl (\<lambda>m a. m(au_email a \<mapsto> Author_init (au_name a) (au_email a)))
                   Map.empty (authors d),
               self_categories =
                 foldl (\<lambda>m c. m(ca_name c \<mapsto> Category_init (ca_name c)))
                   Map.empty (categories d)\<rparr>)"

text \<open>\<^verbatim>\<open>strftime("%Y-%m-%d %H:%M:%S")\<close>, for the years \<^verbatim>\<open>datetime.now()\<close> gives.\<close>

definition digit :: "nat \<Rightarrow> char" where
  "digit n = ''0123456789'' ! (n mod 10)"

definition pad2 :: "nat \<Rightarrow> string" where
  "pad2 n = [digit (n div 10), digit n]"

definition pad4 :: "nat \<Rightarrow> string" where
  "pad4 n = [digit (n div 1000), digit (n div 100), digit (n div 10), digit n]"

definition strftime :: "datetime \<Rightarrow> string" where
  "strftime t =
     pad4 (year t) @ ''-'' @ pad2 (month t) @ ''-'' @ pad2 (day t) @ '' '' @
     pad2 (hour t) @ '':'' @ pad2 (minute t) @ '':'' @ pad2 (second t)"

text \<open>
  \<^verbatim>\<open>add_article\<close> mutates the two dictionaries and the document, then saves. The model
  returns the article, or the exception that left the method, together with the manager
  and the files as the call leaves them: what was mutated before an exception stays
  mutated. The author and the category that the constructor of Article has updated are
  the objects held by the dictionaries, so the dictionaries hold the updated ones.
\<close>

definition add_article ::
  "(document \<Rightarrow> string) \<Rightarrow> manager \<Rightarrow> storage \<Rightarrow>
   string \<Rightarrow> string \<Rightarrow> string \<Rightarrow> string \<Rightarrow> string \<Rightarrow> datetime \<Rightarrow>
   (error + Article) \<times> manager \<times> storage" where
  "add_article json_dump self fs name email category_name title' content' now =
     (case get_or_create_author name email (self_authors self) of (author0, authors1) \<Rightarrow>
      case get_or_create_category category_name (self_categories self) of
        (category0, categories1) \<Rightarrow>
      case create_article title' content' author0 category0 now of
        (article, author1, category1) \<Rightarrow>
      let self1 = self\<lparr>self_authors := authors1(email \<mapsto> author1),
                       self_categories := categories1(category_name \<mapsto> category1)\<rparr>;
          d1 = data self1;
          d2 = (if \<not> list_ex (\<lambda>a. au_email a = Author_email author1) (authors d1)
                then d1\<lparr>authors := authors d1 @
                         [\<lparr>au_name = Author_name author1, au_email = Author_email author1\<rparr>]\<rparr>
                else d1);
          d3 = (if \<not> list_ex (\<lambda>c. ca_name c = Category_name category1) (categories d2)
                then d2\<lparr>categories := categories d2 @ [\<lparr>ca_name = Category_name category1\<rparr>]\<rparr>
                else d2);
          self3 = self1\<lparr>data := d3\<rparr>
      in (case Article_published_at article of
            None \<Rightarrow> (Inl AttributeError, self3, fs)
          | Some t \<Rightarrow>
              let d4 = d3\<lparr>articles := articles d3 @
                         [\<lparr>title = Article_title article, content = Article_content article,
                           author = Author_email author1, category = Category_name category1,
                           published_at = strftime t\<rparr>]\<rparr>;
                  self4 = self3\<lparr>data := d4\<rparr>
              in (case save json_dump self4 fs of
                    Inl e \<Rightarrow> (Inl e, self4, fs)
                  | Inr fs' \<Rightarrow> (Inr article, self4, fs'))))"

definition list_articles :: "manager \<Rightarrow> article_rec list" where
  "list_articles self = articles (data self)"

text \<open>
  \<^verbatim>\<open>show_article\<close> prints and returns nothing. The model returns the lines it prints,
  one for each call of \<^verbatim>\<open>print\<close> (\<open>Inl\<close> would be an exception leaving the method),
  and the manager after the call.
\<close>

definition nl :: string where
  "nl = [CHR 0x0A]"

definition show_article_header :: string where
  "show_article_header = nl @ ''=== ARTIGO SELECIONADO ===''"

definition show_article_body :: "article_rec \<Rightarrow> string" where
  "show_article_body a =
     ''T'' @ [CHR 0xC3, CHR 0xAD] @ ''tulo: '' @ title a @ nl @
     ''Autor: '' @ author a @ nl @
     ''Categoria: '' @ category a @ nl @
     ''Publicado em: '' @ published_at a @ nl @ nl @
     ''Conte'' @ [CHR 0xC3, CHR 0xBA] @ ''do:'' @ nl @ content a"

definition show_article :: "manager \<Rightarrow> int \<Rightarrow> (error + string list) \<times> manager" where
  "show_article self index =
     (let articles' = articles (data self)
      in if 0 \<le> index \<and> index < int (length articles')
         then (Inr [show_article_header, show_article_body (articles' ! nat index)], self)
         else (Inr [], self))"

section \<open>Sequences of calls\<close>

text \<open>The arguments of one call of \<^verbatim>\<open>add_article\<close>, and the clock at that call.\<close>

record call =
  c_name :: string
  c_email :: string
  c_category :: string
  c_title :: string
  c_content :: string
  c_now :: datetime

definition add_article_call ::
  "(document \<Rightarrow> string) \<Rightarrow> manager \<Rightarrow> storage \<Rightarrow> call \<Rightarrow> (error + Article) \<times> manager \<times> storage" where
  "add_article_call json_dump self fs c =
     add_article json_dump self fs (c_name c) (c_email c) (c_category c) (c_title c)
       (c_content c) (c_now c)"

text \<open>
  The calls of a list, one after the other, each on the manager and the files the call
  before left (also when that call raised): the results in call order, the manager and
  the files after the last call.
\<close>

fun add_articles ::
  "(document \<Rightarrow> string) \<Rightarrow> manager \<Rightarrow> storage \<Rightarrow> call list \<Rightarrow>
   (error + Article) list \<times> manager \<times> storage" where
  "add_articles json_dump self fs [] = ([], self, fs)"
| "add_articles json_dump self fs (c # cs) =
     (case add_article_call json_dump self fs c of
        (r, self', fs') \<Rightarrow>
          (case add_articles json_dump self' fs' cs of
             (rs, self'', fs'') \<Rightarrow> (r # rs, self'', fs'')))"

text \<open>
  The try block of \<^verbatim>\<open>ReadArticleCommand.execute\<close> once \<^verbatim>\<open>int\<close> has returned the
  number entered: the numbers shown start at 1, the index passed on starts at 0.
\<close>

definition ReadArticleCommand_select :: "manager \<Rightarrow> int \<Rightarrow> (error + string list) \<times> manager" where
  "ReadArticleCommand_select self escolha = show_article self (escolha - 1)"

section \<open>Properties of documents and managers\<close>

text \<open>The manager that the constructor builds when there is no file.\<close>

definition empty_manager :: "string \<Rightarrow> manager" where
  "empty_manager path =
     \<lparr>filepath = path, data = empty_document, self_authors = Map.empty,
      self_categories = Map.empty\<rparr>"

text \<open>Every article record names an author record and a category record of the document.\<close>

definition ref_integrity :: "document \<Rightarrow> bool" where
  "ref_integrity d =
     list_all (\<lambda>r. author r \<in> au_email ` set (authors d) \<and>
                   category r \<in> ca_name ` set (categories d)) (articles d)"

text \<open>No two author records with one email, no two category records with one name.\<close>

definition unique_keys :: "document \<Rightarrow> bool" where
  "unique_keys d \<longleftrightarrow> distinct (map au_email (authors d)) \<and> distinct (map ca_name (categories d))"

text \<open>
  Each dictionary holds an object under its own key, and has a key for exactly the
  records of the document.
\<close>

definition in_sync :: "manager \<Rightarrow> bool" where
  "in_sync self \<longleftrightarrow>
     (\<forall>k a. self_authors self k = Some a \<longrightarrow> Author_email a = k) \<and>
     (\<forall>k c. self_categories self k = Some c \<longrightarrow> Category_name c = k) \<and>
     dom (self_authors self) = au_email ` set (authors (data self)) \<and>
     dom (self_categories self) = ca_name ` set (categories (data self))"

text \<open>The article record that a call appends on a manager in that state.\<close>

definition call_record :: "call \<Rightarrow> article_rec" where
  "call_record c =
     \<lparr>title = c_title c, content = c_content c, author = c_email c,
      category = c_category c, published_at = strftime (c_now c)\<rparr>"

text \<open>A document with two articles, and the manager built from its file.\<close>

definition two_article_document :: document where
  "two_article_document =
     \<lparr>authors = [\<lparr>au_name = ''Ana'', au_email = ''ana@x.com''\<rparr>],
      categories = [\<lparr>ca_name = ''Tech''\<rparr>],
      articles =
        [\<lparr>title = ''Hello'', content = ''World'', author = ''ana@x.com'',
          category = ''Tech'', published_at = ''2026-11-04 09:05:07''\<rparr>,
         \<lparr>title = ''Second'', content = ''Post'', author = ''ana@x.com'',
          category = ''Tech'', published_at = ''2026-11-04 09:06:00''\<rparr>]\<rparr>"

definition two_article_manager :: manager where
  "two_article_manager =
     \<lparr>filepath = ''database.json'', data = two_article_document,
      self_authors = [''ana@x.com'' \<mapsto> Author_init ''Ana'' ''ana@x.com''],
      self_categories = [''Tech'' \<mapsto> Category_init ''Tech'']\<rparr>"

text \<open>Two calls of the scenario, with the clock at each.\<close>

definition hello_call :: call where
  "hello_call =
     \<lparr>c_name = ''Ana'', c_email = ''ana@x.com'', c_category = ''Tech'', c_title = ''Hello'',
      c_content = ''World'',
      c_now = \<lparr>year = 2026, month = 11, day = 4, hour = 9, minute = 5, second = 7,
               microsecond = 0\<rparr>\<rparr>"

definition second_call :: call where
  "second_call =
     \<lparr>c_name = ''Ana'', c_email = ''ana@x.com'', c_category = ''Tech'', c_title = ''Second'',
      c_content = ''Post'',
      c_now = \<lparr>year = 2026, month = 11, day = 4, hour = 9, minute = 6, second = 0,
               microsecond = 0\<rparr>\<rparr>"

section \<open>The factories\<close>

lemma goc_author_stored:
  "get_or_create_author name email m = (a, m') \<Longrightarrow> m' email = Some a"
  by (auto simp: get_or_create_author_def Let_def split: option.splits)

lemma goc_author_present:
  "m email = Some a \<Longrightarrow> get_or_create_author name email m = (a, m)"
  by (simp add: get_or_create_author_def)

lemma goc_author_dom:
  "get_or_create_author name email m = (a, m') \<Longrightarrow> dom m' = insert email (dom m)"
  by (auto simp: get_or_create_author_def Let_def split: option.splits)

lemma goc_calls_present:
  "m email = Some a \<Longrightarrow>
   get_or_create_author_calls names email m = (replicate (length names) a, m)"
  by (induction names) (simp_all add: goc_author_present)

lemma goc_calls_Cons:
  "get_or_create_author name email m = (a, m1) \<Longrightarrow>
   get_or_create_author_calls (name # names) email m = (replicate (Suc (length names)) a, m1)"
  by (simp add: goc_calls_present [OF goc_author_stored])

lemma goc_category_stored:
  "get_or_create_category name m = (c, m') \<Longrightarrow> m' name = Some c"
  by (auto simp: get_or_create_category_def Let_def split: option.splits)

lemma goc_category_dom:
  "get_or_create_category name m = (c, m') \<Longrightarrow> dom m' = insert name (dom m)"
  by (auto simp: get_or_create_category_def Let_def split: option.splits)

lemma goc_author_email:
  "\<forall>k a. m k = Some a \<longrightarrow> Author_email a = k \<Longrightarrow>
   get_or_create_author name email m = (a, m') \<Longrightarrow> Author_email a = email"
  by (auto simp: get_or_create_author_def Let_def Author_init_def split: option.splits)

lemma goc_category_name:
  "\<forall>k c. m k = Some c \<longrightarrow> Category_name c = k \<Longrightarrow>
   get_or_create_category name m = (c, m') \<Longrightarrow> Category_name c = name"
  by (auto simp: get_or_create_category_def Let_def Category_init_def split: option.splits)

lemma goc_author_keys:
  "\<forall>k a. m k = Some a \<longrightarrow> Author_email a = k \<Longrightarrow>
   get_or_create_author name email m = (a, m') \<Longrightarrow> \<forall>k a. m' k = Some a \<longrightarrow> Author_email a = k"
  by (auto simp: get_or_create_author_def Let_def Author_init_def split: option.splits if_splits)

lemma goc_category_keys:
  "\<forall>k c. m k = Some c \<longrightarrow> Category_name c = k \<Longrightarrow>
   get_or_create_category name m = (c, m') \<Longrightarrow> \<forall>k c. m' k = Some c \<longrightarrow> Category_name c = k"
  by (auto simp: get_or_create_category_def Let_def Category_init_def split: option.splits if_splits)

lemma goc_author_name:
  "get_or_create_author name email m = (a, m') \<Longrightarrow> m email = None \<Longrightarrow> Author_name a = name"
  by (auto simp: get_or_create_author_def Let_def Author_init_def split: option.splits)

lemma create_article_eq:
  "create_article t ct a c now =
     (\<lparr>Article_title = t, Article_content = ct,
       Article_author = Author_add_article a (t, ct),
       Article_category = Category_add_article c (t, ct),
       Article_published_at = Some now\<rparr>,
      Author_add_article a (t, ct), Category_add_article c (t, ct))"
  by (simp add: create_article_def Article_init_def publish_def Let_def)

section \<open>One call of \<^verbatim>\<open>add_article\<close>\<close>

text \<open>
  The manager after a call, whatever \<^verbatim>\<open>save\<close> does: \<^verbatim>\<open>create_article\<close> always
  publishes, so the branch of the unpublished article is never taken.
\<close>

lemma list_ex_email: "list_ex (\<lambda>a. au_email a = x) xs \<longleftrightarrow> x \<in> au_email ` set xs"
  by (auto simp: list_ex_iff)

lemma list_ex_name: "list_ex (\<lambda>c. ca_name c = x) xs \<longleftrightarrow> x \<in> ca_name ` set xs"
  by (auto simp: list_ex_iff)

lemma add_article_manager:
  assumes ga: "get_or_create_author n e (self_authors m) = (a0, as1)"
    and gc: "get_or_create_category c (self_categories m) = (c0, cs1)"
  shows "fst (snd (add_article jd m fs n e c t ct now)) =
     m\<lparr>self_authors := as1(e \<mapsto> Author_add_article a0 (t, ct)),
       self_categories := cs1(c \<mapsto> Category_add_article c0 (t, ct)),
       data := \<lparr>authors = (if list_ex (\<lambda>a. au_email a = Author_email a0) (authors (data m)) then authors (data m)
            else authors (data m) @ [\<lparr>au_name = Author_name a0, au_email = Author_email a0\<rparr>]),
          categories = (if list_ex (\<lambda>c. ca_name c = Category_name c0) (categories (data m)) then categories (data m)
            else categories (data m) @ [\<lparr>ca_name = Category_name c0\<rparr>]),
          articles = articles (data m) @
           [\<lparr>title = t, content = ct, author = Author_email a0,
             category = Category_name c0, published_at = strftime now\<rparr>]\<rparr>\<rparr>"
proof (cases "list_ex (\<lambda>a. au_email a = Author_email a0) (authors (data m))";
       cases "list_ex (\<lambda>c. ca_name c = Category_name c0) (categories (data m))")
  qed (simp_all add: add_article_def ga gc create_article_eq Let_def
        Author_add_article_def Category_add_article_def
      split: sum.splits)

lemma add_article_result:
  "fst (add_article jd m fs n e c t ct now) =
     (case save jd (fst (snd (add_article jd m fs n e c t ct now))) fs of
        Inl er \<Rightarrow> Inl er
      | Inr fs' \<Rightarrow> Inr (fst (create_article t ct (fst (get_or_create_author n e (self_authors m)))
            (fst (get_or_create_category c (self_categories m))) now)))"
  by (simp add: add_article_def create_article_eq Let_def split: sum.splits prod.splits)

lemma add_article_storage:
  "snd (snd (add_article jd m fs n e c t ct now)) =
     (case save jd (fst (snd (add_article jd m fs n e c t ct now))) fs of
        Inl er \<Rightarrow> fs
      | Inr fs' \<Rightarrow> fs')"
  by (simp add: add_article_def create_article_eq Let_def split: sum.splits prod.splits)

lemma add_article_data:
  assumes ga: "get_or_create_author n e (self_authors m) = (a0, as1)"
    and gc: "get_or_create_category c (self_categories m) = (c0, cs1)"
    and run: "add_article jd m fs n e c t ct now = (r, m', fs')"
  shows "authors (data m') =
           (if Author_email a0 \<in> au_email ` set (authors (data m)) then authors (data m)
            else authors (data m) @ [\<lparr>au_name = Author_name a0, au_email = Author_email a0\<rparr>])"
    and "categories (data m') =
           (if Category_name c0 \<in> ca_name ` set (categories (data m)) then categories (data m)
            else categories (data m) @ [\<lparr>ca_name = Category_name c0\<rparr>])"
    and "articles (data m') = articles (data m) @
           [\<lparr>title = t, content = ct, author = Author_email a0,
             category = Category_name c0, published_at = strftime now\<rparr>]"
    and "self_authors m' = as1(e \<mapsto> Author_add_article a0 (t, ct))"
    and "self_categories m' = cs1(c \<mapsto> Category_add_article c0 (t, ct))"
    and "filepath m' = filepath m"
proof -
  from run have "m' = fst (snd (add_article jd m fs n e c t ct now))" by simp
  then have m': "m' = m\<lparr>self_authors := as1(e \<mapsto> Author_add_article a0 (t, ct)),
       self_categories := cs1(c \<mapsto> Category_add_article c0 (t, ct)),
       data := \<lparr>authors = (if list_ex (\<lambda>a. au_email a = Author_email a0) (authors (data m)) then authors (data m)
            else authors (data m) @ [\<lparr>au_name = Author_name a0, au_email = Author_email a0\<rparr>]),
          categories = (if list_ex (\<lambda>c. ca_name c = Category_name c0) (categories (data m)) then categories (data m)
            else categories (data m) @ [\<lparr>ca_name = Category_name c0\<rparr>]),
          articles = articles (data m) @
           [\<lparr>title = t, content = ct, author = Author_email a0,
             category = Category_name c0, published_at = strftime now\<rparr>]\<rparr>\<rparr>"
    by (simp only: add_article_manager [OF ga gc])
  show "authors (data m') =
           (if Author_email a0 \<in> au_email ` set (authors (data m)) then authors (data m)
            else authors (data m) @ [\<lparr>au_name = Author_name a0, au_email = Author_email a0\<rparr>])"
    by (simp add: m' list_ex_email)
  show "categories (data m') =
           (if Category_name c0 \<in> ca_name ` set (categories (data m)) then categories (data m)
            else categories (data m) @ [\<lparr>ca_name = Category_name c0\<rparr>])"
    by (simp add: m' list_ex_name)
  show "articles (data m') = articles (data m) @
           [\<lparr>title = t, content = ct, author = Author_email a0,
             category = Category_name c0, published_at = strftime now\<rparr>]"
    by (simp add: m')
  show "self_authors m' = as1(e \<mapsto> Author_add_article a0 (t, ct))" by (simp add: m')
  show "self_categories m' = cs1(c \<mapsto> Category_add_article c0 (t, ct))" by (simp add: m')
  show "filepath m' = filepath m" by (simp add: m')
qed

lemma add_article_returned:
  assumes ga: "get_or_create_author n e (self_authors m) = (a0, as1)"
    and gc: "get_or_create_category c (self_categories m) = (c0, cs1)"
    and run: "add_article jd m fs n e c t ct now = (Inr a, m', fs')"
  shows "a = \<lparr>Article_title = t, Article_content = ct,
              Article_author = Author_add_article a0 (t, ct),
              Article_category = Category_add_article c0 (t, ct),
              Article_published_at = Some now\<rparr>"
proof -
  from run have "fst (add_article jd m fs n e c t ct now) = Inr a" by simp
  then show ?thesis
    by (simp add: add_article_result ga gc create_article_eq split: sum.splits)
qed

lemma add_article_save:
  assumes run: "add_article jd m fs n e c t ct now = (r, m', fs')"
  shows "(case save jd m' fs of Inl er \<Rightarrow> r = Inl er \<and> fs' = fs
          | Inr fs'' \<Rightarrow> (\<exists>a. r = Inr a) \<and> fs' = fs'')"
proof -
  from run have m': "fst (snd (add_article jd m fs n e c t ct now)) = m'"
    and r: "fst (add_article jd m fs n e c t ct now) = r"
    and fs': "snd (snd (add_article jd m fs n e c t ct now)) = fs'" by simp_all
  show ?thesis
    using add_article_result [of jd m fs n e c t ct now]
      add_article_storage [of jd m fs n e c t ct now]
    unfolding m' r fs' by (auto split: sum.splits)
qed

lemma add_article_ref_integrity:
  assumes ri: "ref_integrity (data m)"
    and run: "add_article jd m fs n e c t ct now = (r, m', fs')"
  shows "ref_integrity (data m')"
proof -
  obtain a0 as1 where ga: "get_or_create_author n e (self_authors m) = (a0, as1)"
    by (cases "get_or_create_author n e (self_authors m)")
  obtain c0 cs1 where gc: "get_or_create_category c (self_categories m) = (c0, cs1)"
    by (cases "get_or_create_category c (self_categories m)")
  note d = add_article_data [OF ga gc run]
  have au: "au_email ` set (authors (data m)) \<subseteq> au_email ` set (authors (data m'))"
    by (auto simp: d(1))
  have ca: "ca_name ` set (categories (data m)) \<subseteq> ca_name ` set (categories (data m'))"
    by (auto simp: d(2))
  have a0: "Author_email a0 \<in> au_email ` set (authors (data m'))"
    by (simp add: d(1))
  have c0: "Category_name c0 \<in> ca_name ` set (categories (data m'))"
    by (simp add: d(2))
  show ?thesis
    using ri au ca a0 c0 unfolding ref_integrity_def d(3) list_all_iff by auto
qed

lemma add_article_unique_keys:
  assumes uk: "unique_keys (data m)"
    and run: "add_article jd m fs n e c t ct now = (r, m', fs')"
  shows "unique_keys (data m')"
proof -
  obtain a0 as1 where ga: "get_or_create_author n e (self_authors m) = (a0, as1)"
    by (cases "get_or_create_author n e (self_authors m)")
  obtain c0 cs1 where gc: "get_or_create_category c (self_categories m) = (c0, cs1)"
    by (cases "get_or_create_category c (self_categories m)")
  note d = add_article_data [OF ga gc run]
  show ?thesis
    using uk unfolding unique_keys_def d(1) d(2) by auto
qed

lemma add_article_in_sync:
  assumes sy: "in_sync m"
    and run: "add_article jd m fs n e c t ct now = (r, m', fs')"
  shows "in_sync m'"
proof -
  obtain a0 as1 where ga: "get_or_create_author n e (self_authors m) = (a0, as1)"
    by (cases "get_or_create_author n e (self_authors m)")
  obtain c0 cs1 where gc: "get_or_create_category c (self_categories m) = (c0, cs1)"
    by (cases "get_or_create_category c (self_categories m)")
  note d = add_article_data [OF ga gc run]
  from sy have ka: "\<forall>k a. self_authors m k = Some a \<longrightarrow> Author_email a = k"
    and kc: "\<forall>k c. self_categories m k = Some c \<longrightarrow> Category_name c = k"
    and da: "dom (self_authors m) = au_email ` set (authors (data m))"
    and dc: "dom (self_categories m) = ca_name ` set (categories (data m))"
    by (simp_all add: in_sync_def)
  have ea: "Author_email a0 = e" by (rule goc_author_email [OF ka ga])
  have ec: "Category_name c0 = c" by (rule goc_category_name [OF kc gc])
  have ka1: "\<forall>k a. as1 k = Some a \<longrightarrow> Author_email a = k" by (rule goc_author_keys [OF ka ga])
  have kc1: "\<forall>k c. cs1 k = Some c \<longrightarrow> Category_name c = k" by (rule goc_category_keys [OF kc gc])
  have 1: "\<forall>k a. self_authors m' k = Some a \<longrightarrow> Author_email a = k"
    using ka1 ea by (auto simp: d(4) Author_add_article_def)
  have 2: "\<forall>k c. self_categories m' k = Some c \<longrightarrow> Category_name c = k"
    using kc1 ec by (auto simp: d(5) Category_add_article_def)
  have 3: "dom (self_authors m') = au_email ` set (authors (data m'))"
    using da ea goc_author_dom [OF ga] by (auto simp: d(4) d(1))
  have 4: "dom (self_categories m') = ca_name ` set (categories (data m'))"
    using dc ec goc_category_dom [OF gc] by (auto simp: d(5) d(2))
  show ?thesis using 1 2 3 4 by (simp add: in_sync_def)
qed

section \<open>Sequences of calls\<close>

lemma add_article_call_ref_integrity:
  "ref_integrity (data m) \<Longrightarrow> add_article_call jd m fs c = (r, m', fs') \<Longrightarrow> ref_integrity (data m')"
  unfolding add_article_call_def by (rule add_article_ref_integrity)

lemma add_article_call_unique_keys:
  "unique_keys (data m) \<Longrightarrow> add_article_call jd m fs c = (r, m', fs') \<Longrightarrow> unique_keys (data m')"
  unfolding add_article_call_def by (rule add_article_unique_keys)

lemma add_article_call_in_sync:
  "in_sync m \<Longrightarrow> add_article_call jd m fs c = (r, m', fs') \<Longrightarrow> in_sync m'"
  unfolding add_article_call_def by (rule add_article_in_sync)

lemma add_article_call_record:
  assumes sy: "in_sync m" and run: "add_article_call jd m fs c = (r, m', fs')"
  shows "articles (data m') = articles (data m) @ [call_record c]"
proof -
  obtain a0 as1 where ga: "get_or_create_author (c_name c) (c_email c) (self_authors m) = (a0, as1)"
    by (cases "get_or_create_author (c_name c) (c_email c) (self_authors m)")
  obtain c0 cs1 where gc: "get_or_create_category (c_category c) (self_categories m) = (c0, cs1)"
    by (cases "get_or_create_category (c_category c) (self_categories m)")
  from sy have ka: "\<forall>k a. self_authors m k = Some a \<longrightarrow> Author_email a = k"
    and kc: "\<forall>k c. self_categories m k = Some c \<longrightarrow> Category_name c = k"
    by (simp_all add: in_sync_def)
  have ea: "Author_email a0 = c_email c" by (rule goc_author_email [OF ka ga])
  have ec: "Category_name c0 = c_category c" by (rule goc_category_name [OF kc gc])
  from run have run': "add_article jd m fs (c_name c) (c_email c) (c_category c) (c_title c)
       (c_content c) (c_now c) = (r, m', fs')"
    by (simp add: add_article_call_def)
  show ?thesis
    by (simp add: add_article_data(3) [OF ga gc run'] ea ec call_record_def)
qed

lemma add_article_call_authors:
  assumes sy: "in_sync m" and run: "add_article_call jd m fs c = (r, m', fs')"
  shows "authors (data m') =
           (if c_email c \<in> au_email ` set (authors (data m)) then authors (data m)
            else authors (data m) @ [\<lparr>au_name = c_name c, au_email = c_email c\<rparr>])"
proof -
  obtain a0 as1 where ga: "get_or_create_author (c_name c) (c_email c) (self_authors m) = (a0, as1)"
    by (cases "get_or_create_author (c_name c) (c_email c) (self_authors m)")
  obtain c0 cs1 where gc: "get_or_create_category (c_category c) (self_categories m) = (c0, cs1)"
    by (cases "get_or_create_category (c_category c) (self_categories m)")
  from sy have ka: "\<forall>k a. self_authors m k = Some a \<longrightarrow> Author_email a = k"
    and da: "dom (self_authors m) = au_email ` set (authors (data m))"
    by (simp_all add: in_sync_def)
  have ea: "Author_email a0 = c_email c" by (rule goc_author_email [OF ka ga])
  have na: "c_email c \<notin> au_email ` set (authors (data m)) \<Longrightarrow> Author_name a0 = c_name c"
    using goc_author_name [OF ga] da by (auto simp: domIff)
  from run have run': "add_article jd m fs (c_name c) (c_email c) (c_category c) (c_title c)
       (c_content c) (c_now c) = (r, m', fs')"
    by (simp add: add_article_call_def)
  show ?thesis
    using na by (simp add: add_article_data(1) [OF ga gc run'] ea)
qed

lemma add_article_call_categories:
  assumes sy: "in_sync m" and run: "add_article_call jd m fs c = (r, m', fs')"
  shows "categories (data m') =
           (if c_category c \<in> ca_name ` set (categories (data m)) then categories (data m)
            else categories (data m) @ [\<lparr>ca_name = c_category c\<rparr>])"
proof -
  obtain a0 as1 where ga: "get_or_create_author (c_name c) (c_email c) (self_authors m) = (a0, as1)"
    by (cases "get_or_create_author (c_name c) (c_email c) (self_authors m)")
  obtain c0 cs1 where gc: "get_or_create_category (c_category c) (self_categories m) = (c0, cs1)"
    by (cases "get_or_create_category (c_category c) (self_categories m)")
  from sy have kc: "\<forall>k c. self_categories m k = Some c \<longrightarrow> Category_name c = k"
    by (simp_all add: in_sync_def)
  have ec: "Category_name c0 = c_category c" by (rule goc_category_name [OF kc gc])
  from run have run': "add_article jd m fs (c_name c) (c_email c) (c_category c) (c_title c)
       (c_content c) (c_now c) = (r, m', fs')"
    by (simp add: add_article_call_def)
  show ?thesis
    by (simp add: add_article_data(2) [OF ga gc run'] ec)
qed

lemma add_articles_ref_integrity:
  "ref_integrity (data m) \<Longrightarrow> add_articles jd m fs cs = (rs, m', fs') \<Longrightarrow> ref_integrity (data m')"
proof (induction cs arbitrary: m fs rs m' fs')
  case Nil
  then show ?case by simp
next
  case (Cons c cs)
  obtain r m1 fs1 where 1: "add_article_call jd m fs c = (r, m1, fs1)"
    by (cases "add_article_call jd m fs c")
  obtain rs1 m2 fs2 where 2: "add_articles jd m1 fs1 cs = (rs1, m2, fs2)"
    by (cases "add_articles jd m1 fs1 cs")
  from Cons.prems(2) 1 2 have "m' = m2" by simp
  with Cons.IH [OF add_article_call_ref_integrity [OF Cons.prems(1) 1] 2] show ?case by simp
qed

lemma add_articles_unique_keys:
  "unique_keys (data m) \<Longrightarrow> add_articles jd m fs cs = (rs, m', fs') \<Longrightarrow> unique_keys (data m')"
proof (induction cs arbitrary: m fs rs m' fs')
  case Nil
  then show ?case by simp
next
  case (Cons c cs)
  obtain r m1 fs1 where 1: "add_article_call jd m fs c = (r, m1, fs1)"
    by (cases "add_article_call jd m fs c")
  obtain rs1 m2 fs2 where 2: "add_articles jd m1 fs1 cs = (rs1, m2, fs2)"
    by (cases "add_articles jd m1 fs1 cs")
  from Cons.prems(2) 1 2 have "m' = m2" by simp
  with Cons.IH [OF add_article_call_unique_keys [OF Cons.prems(1) 1] 2] show ?case by simp
qed

lemma add_articles_in_sync:
  "in_sync m \<Longrightarrow> add_articles jd m fs cs = (rs, m', fs') \<Longrightarrow> in_sync m'"
proof (induction cs arbitrary: m fs rs m' fs')
  case Nil
  then show ?case by simp
next
  case (Cons c cs)
  obtain r m1 fs1 where 1: "add_article_call jd m fs c = (r, m1, fs1)"
    by (cases "add_article_call jd m fs c")
  obtain rs1 m2 fs2 where 2: "add_articles jd m1 fs1 cs = (rs1, m2, fs2)"
    by (cases "add_articles jd m1 fs1 cs")
  from Cons.prems(2) 1 2 have "m' = m2" by simp
  with Cons.IH [OF add_article_call_in_sync [OF Cons.prems(1) 1] 2] show ?case by simp
qed

lemma add_articles_records:
  "in_sync m \<Longrightarrow> add_articles jd m fs cs = (rs, m', fs') \<Longrightarrow>
   articles (data m') = articles (data m) @ map call_record cs"
proof (induction cs arbitrary: m fs rs m' fs')
  case Nil
  then show ?case by simp
next
  case (Cons c cs)
  obtain r m1 fs1 where 1: "add_article_call jd m fs c = (r, m1, fs1)"
    by (cases "add_article_call jd m fs c")
  obtain rs1 m2 fs2 where 2: "add_articles jd m1 fs1 cs = (rs1, m2, fs2)"
    by (cases "add_articles jd m1 fs1 cs")
  from Cons.prems(2) 1 2 have "m' = m2" by simp
  with Cons.IH [OF add_article_call_in_sync [OF Cons.prems(1) 1] 2]
    add_article_call_record [OF Cons.prems(1) 1]
  show ?case by simp
qed

lemma empty_manager_in_sync: "in_sync (empty_manager p)"
  by (simp add: in_sync_def empty_manager_def empty_document_def)

lemma empty_manager_unique_keys: "unique_keys (data (empty_manager p))"
  by (simp add: unique_keys_def empty_manager_def empty_document_def)

lemma empty_manager_articles: "articles (data (empty_manager p)) = []"
  by (simp add: empty_manager_def empty_document_def)

lemma triple_collapse: "x = (fst x, fst (snd x), snd (snd x))"
  by simp

lemma strftime_example:
  "strftime \<lparr>year = 2026, month = 11, day = 4, hour = 9, minute = 5, second = 7,
               microsecond = 123456\<rparr> = ''2026-11-04 09:05:07''"
  by (simp add: strftime_def pad2_def pad4_def digit_def)

section \<open>The claims\<close>

text \<open>
  Claim C1. Start from a manager whose document has referential integrity: every article
  record names an author record and a category record of the document. After any sequence
  of calls of \<^verbatim>\<open>add_article\<close>, and after one more call, the document still has it;
  the call appends exactly one article record, with the title and content given, whose
  author email is in the list of authors and whose category name is in the list of
  categories; and they are the email and the name of the author and the category of the
  Article returned. This holds whether or not the saves succeed.
\<close>

theorem add_article_referential_integrity:
  assumes ri: "ref_integrity (data m)"
    and seq: "add_articles jd m fs cs = (rs, m1, fs1)"
    and run: "add_article jd m1 fs1 n e c t ct now = (r, m2, fs2)"
  shows "ref_integrity (data m1) \<and> ref_integrity (data m2) \<and>
         length (articles (data m2)) = Suc (length (articles (data m1))) \<and>
         butlast (articles (data m2)) = articles (data m1) \<and>
         title (last (articles (data m2))) = t \<and>
         content (last (articles (data m2))) = ct \<and>
         author (last (articles (data m2))) \<in> au_email ` set (authors (data m2)) \<and>
         category (last (articles (data m2))) \<in> ca_name ` set (categories (data m2)) \<and>
         (\<forall>a. r = Inr a \<longrightarrow>
            Author_email (Article_author a) = author (last (articles (data m2))) \<and>
            Category_name (Article_category a) = category (last (articles (data m2))))"
proof -
  obtain a0 as1 where ga: "get_or_create_author n e (self_authors m1) = (a0, as1)"
    by (cases "get_or_create_author n e (self_authors m1)")
  obtain c0 cs1 where gc: "get_or_create_category c (self_categories m1) = (c0, cs1)"
    by (cases "get_or_create_category c (self_categories m1)")
  note d = add_article_data [OF ga gc run]
  have r1: "ref_integrity (data m1)" by (rule add_articles_ref_integrity [OF ri seq])
  have r2: "ref_integrity (data m2)" by (rule add_article_ref_integrity [OF r1 run])
  have a: "Author_email a0 \<in> au_email ` set (authors (data m2))" by (simp add: d(1))
  have k: "Category_name c0 \<in> ca_name ` set (categories (data m2))" by (simp add: d(2))
  have ret: "\<forall>a. r = Inr a \<longrightarrow> Author_email (Article_author a) = Author_email a0 \<and>
            Category_name (Article_category a) = Category_name c0"
  proof (intro allI impI)
    fix a assume "r = Inr a"
    with run have "add_article jd m1 fs1 n e c t ct now = (Inr a, m2, fs2)" by simp
    from add_article_returned [OF ga gc this]
    show "Author_email (Article_author a) = Author_email a0 \<and>
            Category_name (Article_category a) = Category_name c0"
      by (simp add: Author_add_article_def Category_add_article_def)
  qed
  show ?thesis using r1 r2 a k ret by (simp add: d(3))
qed

theorem add_article_referential_integrity_witness:
  "ref_integrity (data (empty_manager ''database.json'')) \<and>
   ref_integrity (data (fst (snd (add_article (\<lambda>d. ''{}'')
      (fst (snd (add_articles (\<lambda>d. ''{}'') (empty_manager ''database.json'') (\<lambda>p. Absent) [hello_call])))
      (snd (snd (add_articles (\<lambda>d. ''{}'') (empty_manager ''database.json'') (\<lambda>p. Absent) [hello_call])))
      ''Bob'' ''bob@x.com'' ''Art'' ''Second'' ''Post'' (c_now second_call))))) \<and>
   author (last (articles (data (fst (snd (add_article (\<lambda>d. ''{}'')
      (fst (snd (add_articles (\<lambda>d. ''{}'') (empty_manager ''database.json'') (\<lambda>p. Absent) [hello_call])))
      (snd (snd (add_articles (\<lambda>d. ''{}'') (empty_manager ''database.json'') (\<lambda>p. Absent) [hello_call])))
      ''Bob'' ''bob@x.com'' ''Art'' ''Second'' ''Post'' (c_now second_call))))))) \<in>
    au_email ` set (authors (data (fst (snd (add_article (\<lambda>d. ''{}'')
      (fst (snd (add_articles (\<lambda>d. ''{}'') (empty_manager ''database.json'') (\<lambda>p. Absent) [hello_call])))
      (snd (snd (add_articles (\<lambda>d. ''{}'') (empty_manager ''database.json'') (\<lambda>p. Absent) [hello_call])))
      ''Bob'' ''bob@x.com'' ''Art'' ''Second'' ''Post'' (c_now second_call))))))"
proof -
  have h: "ref_integrity (data (empty_manager ''database.json''))"
    by (simp add: ref_integrity_def empty_manager_def empty_document_def)
  show ?thesis
    using h add_article_referential_integrity [OF h triple_collapse triple_collapse]
    by blast
qed

text \<open>
  Claim C2. Any number of calls of \<^verbatim>\<open>get_or_create_author\<close> with one email and any
  names, each on the dictionary the call before left, all return the same author, the one
  stored under the email after the calls; the dictionary gains the key of the email and
  nothing else, so its size grows by at most one; an author already stored under the
  email is returned as it is, its name included, and the dictionary is unchanged; with
  no author stored the author has the name of the first call.
\<close>

theorem get_or_create_author_idempotent:
  assumes "get_or_create_author_calls (name # names) email m = (as, m')"
  shows "as = replicate (Suc (length names)) (fst (get_or_create_author name email m)) \<and>
         (\<forall>a\<in>set as. m' email = Some a) \<and>
         dom m' = insert email (dom m) \<and>
         (finite (dom m) \<longrightarrow> card (dom m') \<le> card (dom m) + 1) \<and>
         (\<forall>a0. m email = Some a0 \<longrightarrow> m' = m \<and> (\<forall>a\<in>set as. a = a0)) \<and>
         (m email = None \<longrightarrow> (\<forall>a\<in>set as. a = Author_init name email))"
proof -
  obtain a m1 where g: "get_or_create_author name email m = (a, m1)"
    by (cases "get_or_create_author name email m")
  from goc_calls_Cons [OF g] assms have as: "as = replicate (Suc (length names)) a" and m': "m' = m1"
    by simp_all
  have st: "m1 email = Some a" by (rule goc_author_stored [OF g])
  have d: "dom m1 = insert email (dom m)" by (rule goc_author_dom [OF g])
  have c: "finite (dom m) \<longrightarrow> card (dom m1) \<le> card (dom m) + 1"
    by (simp add: d card_insert_if)
  have p: "\<forall>a0. m email = Some a0 \<longrightarrow> m1 = m \<and> a = a0"
    using g by (auto simp: get_or_create_author_def Let_def)
  have n: "m email = None \<longrightarrow> a = Author_init name email"
    using g by (auto simp: get_or_create_author_def Let_def)
  show ?thesis using as m' st d c p n g by auto
qed

theorem get_or_create_author_idempotent_witness:
  "get_or_create_author_calls [''Ana'', ''Bob'', ''Eve''] ''ana@x.com'' Map.empty =
     ([Author_init ''Ana'' ''ana@x.com'', Author_init ''Ana'' ''ana@x.com'',
       Author_init ''Ana'' ''ana@x.com''],
      [''ana@x.com'' \<mapsto> Author_init ''Ana'' ''ana@x.com'']) \<and>
   finite (dom (Map.empty :: string \<rightharpoonup> Author)) \<and>
   card (dom [''ana@x.com'' \<mapsto> Author_init ''Ana'' ''ana@x.com'']) \<le>
     card (dom (Map.empty :: string \<rightharpoonup> Author)) + 1 \<and>
   get_or_create_author_calls [''Bob'', ''Eve''] ''ana@x.com''
       [''ana@x.com'' \<mapsto> Author_init ''Ana'' ''ana@x.com''] =
     ([Author_init ''Ana'' ''ana@x.com'', Author_init ''Ana'' ''ana@x.com''],
      [''ana@x.com'' \<mapsto> Author_init ''Ana'' ''ana@x.com''])"
proof -
  have 1: "get_or_create_author_calls [''Ana'', ''Bob'', ''Eve''] ''ana@x.com'' Map.empty =
     ([Author_init ''Ana'' ''ana@x.com'', Author_init ''Ana'' ''ana@x.com'',
       Author_init ''Ana'' ''ana@x.com''],
      [''ana@x.com'' \<mapsto> Author_init ''Ana'' ''ana@x.com''])"
    by (simp add: get_or_create_author_def Let_def)
  have 2: "get_or_create_author_calls [''Bob'', ''Eve''] ''ana@x.com''
       [''ana@x.com'' \<mapsto> Author_init ''Ana'' ''ana@x.com''] =
     ([Author_init ''Ana'' ''ana@x.com'', Author_init ''Ana'' ''ana@x.com''],
      [''ana@x.com'' \<mapsto> Author_init ''Ana'' ''ana@x.com''])"
    by (simp add: get_or_create_author_def Let_def)
  show ?thesis
    using 1 2 get_or_create_author_idempotent [OF 1] get_or_create_author_idempotent [OF 2] by simp
qed

text \<open>
  Claim C3. After the calls \<open>cs\<close> of \<^verbatim>\<open>add_article\<close> on the manager of the empty
  document, \<^verbatim>\<open>list_articles\<close> is the list of the records of the calls, one for each call
  and in call order; after further calls \<open>ds\<close> the first records are the same records,
  followed by those of \<open>ds\<close>; and \<^verbatim>\<open>show_article\<close> leaves the manager and its records
  as they are.
\<close>

theorem add_article_append_only:
  assumes seq: "add_articles jd (empty_manager p) fs cs = (rs, m1, fs1)"
    and later: "add_articles jd m1 fs1 ds = (rs', m2, fs2)"
  shows "list_articles m1 = map call_record cs \<and>
         length (list_articles m1) = length cs \<and>
         list_articles m2 = list_articles m1 @ map call_record ds \<and>
         take (length cs) (list_articles m2) = list_articles m1 \<and>
         (\<forall>i. snd (show_article m2 i) = m2 \<and> list_articles (snd (show_article m2 i)) = list_articles m2)"
proof -
  have s1: "in_sync m1" by (rule add_articles_in_sync [OF empty_manager_in_sync seq])
  have 1: "articles (data m1) = map call_record cs"
    using add_articles_records [OF empty_manager_in_sync seq] by (simp add: empty_manager_articles)
  have 2: "articles (data m2) = articles (data m1) @ map call_record ds"
    by (rule add_articles_records [OF s1 later])
  show ?thesis by (simp add: list_articles_def 1 2 show_article_def Let_def)
qed

theorem add_article_append_only_witness:
  "list_articles (fst (snd (add_articles (\<lambda>d. ''{}'') (empty_manager ''database.json'')
       (\<lambda>p. Absent) [hello_call, second_call]))) =
     [\<lparr>title = ''Hello'', content = ''World'', author = ''ana@x.com'', category = ''Tech'',
       published_at = ''2026-11-04 09:05:07''\<rparr>,
      \<lparr>title = ''Second'', content = ''Post'', author = ''ana@x.com'', category = ''Tech'',
       published_at = ''2026-11-04 09:06:00''\<rparr>] \<and>
   take 2 (list_articles (fst (snd (add_articles (\<lambda>d. ''{}'')
       (fst (snd (add_articles (\<lambda>d. ''{}'') (empty_manager ''database.json'')
          (\<lambda>p. Absent) [hello_call, second_call])))
       (snd (snd (add_articles (\<lambda>d. ''{}'') (empty_manager ''database.json'')
          (\<lambda>p. Absent) [hello_call, second_call])))
       [hello_call])))) =
     list_articles (fst (snd (add_articles (\<lambda>d. ''{}'') (empty_manager ''database.json'')
       (\<lambda>p. Absent) [hello_call, second_call])))"
proof -
  have r: "map call_record [hello_call, second_call] =
     [\<lparr>title = ''Hello'', content = ''World'', author = ''ana@x.com'', category = ''Tech'',
       published_at = ''2026-11-04 09:05:07''\<rparr>,
      \<lparr>title = ''Second'', content = ''Post'', author = ''ana@x.com'', category = ''Tech'',
       published_at = ''2026-11-04 09:06:00''\<rparr>]"
    by (simp add: call_record_def hello_call_def second_call_def strftime_def pad2_def pad4_def
        digit_def)
  have l: "length [hello_call, second_call] = 2" by simp
  show ?thesis
    using add_article_append_only [where jd = "\<lambda>d. ''{}''" and p = "''database.json''"
        and fs = "\<lambda>p. Absent" and cs = "[hello_call, second_call]" and ds = "[hello_call]",
        OF triple_collapse triple_collapse]
    unfolding r l by blast
qed

text \<open>
  Claim C4. After any sequence of calls of \<^verbatim>\<open>add_article\<close> on the manager of the empty
  document, and after one more call, no two author records have the same email and no two
  category records the same name; the call appends an author record exactly when the
  email is in no author record, and a category record exactly when the name is in no
  category record.
\<close>

theorem add_article_unique_records:
  assumes seq: "add_articles jd (empty_manager p) fs cs = (rs, m1, fs1)"
    and run: "add_article_call jd m1 fs1 c = (r, m2, fs2)"
  shows "unique_keys (data m1) \<and> unique_keys (data m2) \<and>
         authors (data m2) =
           (if c_email c \<in> au_email ` set (authors (data m1)) then authors (data m1)
            else authors (data m1) @ [\<lparr>au_name = c_name c, au_email = c_email c\<rparr>]) \<and>
         categories (data m2) =
           (if c_category c \<in> ca_name ` set (categories (data m1)) then categories (data m1)
            else categories (data m1) @ [\<lparr>ca_name = c_category c\<rparr>])"
proof -
  have s1: "in_sync m1" by (rule add_articles_in_sync [OF empty_manager_in_sync seq])
  have u1: "unique_keys (data m1)" by (rule add_articles_unique_keys [OF empty_manager_unique_keys seq])
  have u2: "unique_keys (data m2)" by (rule add_article_call_unique_keys [OF u1 run])
  show ?thesis
    using u1 u2 add_article_call_authors [OF s1 run] add_article_call_categories [OF s1 run]
    by simp
qed

theorem add_article_unique_records_witness:
  "unique_keys (data (fst (snd (add_article_call (\<lambda>d. ''{}'')
      (fst (snd (add_articles (\<lambda>d. ''{}'') (empty_manager ''database.json'') (\<lambda>p. Absent) [hello_call])))
      (snd (snd (add_articles (\<lambda>d. ''{}'') (empty_manager ''database.json'') (\<lambda>p. Absent) [hello_call])))
      second_call))))"
  using add_article_unique_records [where jd = "\<lambda>d. ''{}''" and p = "''database.json''"
      and fs = "\<lambda>p. Absent" and cs = "[hello_call]" and c = second_call,
      OF triple_collapse triple_collapse]
  by blast

text \<open>
  Claim C5. \<^verbatim>\<open>load\<close> returns the empty document when there is no file, and the
  constructor then builds the empty manager; it returns the document parsed when the file
  has a text that \<^verbatim>\<open>json.load\<close> parses; when \<^verbatim>\<open>json.load\<close> raises
  \<^verbatim>\<open>JSONDecodeError\<close>, the exception leaves \<^verbatim>\<open>load\<close> and the constructor.
\<close>

theorem load_cases:
  "(fs p = Absent \<longrightarrow> load jl p fs = Inr empty_document \<and>
       CatalogManager_init jl p fs = Inr (empty_manager p)) \<and>
   (\<forall>text d. fs p = Content text \<and> jl text = Some d \<longrightarrow> load jl p fs = Inr d) \<and>
   (\<forall>text. fs p = Content text \<and> jl text = None \<longrightarrow>
       load jl p fs = Inl JSONDecodeError \<and> CatalogManager_init jl p fs = Inl JSONDecodeError)"
  by (simp add: load_def open_r_def CatalogManager_init_def empty_manager_def empty_document_def)

theorem load_cases_witness:
  "load (\<lambda>s. if s = ''two'' then Some two_article_document else None) ''database.json''
      (\<lambda>p. Absent) = Inr empty_document \<and>
   load (\<lambda>s. if s = ''two'' then Some two_article_document else None) ''database.json''
      (\<lambda>p. Content ''two'') = Inr two_article_document \<and>
   load (\<lambda>s. if s = ''two'' then Some two_article_document else None) ''database.json''
      (\<lambda>p. Content ''{'') = Inl JSONDecodeError"
  using load_cases [of "\<lambda>p. Absent" "''database.json''"
        "\<lambda>s. if s = ''two'' then Some two_article_document else None"]
    load_cases [of "\<lambda>p. Content ''two''" "''database.json''"
        "\<lambda>s. if s = ''two'' then Some two_article_document else None"]
    load_cases [of "\<lambda>p. Content ''{''" "''database.json''"
        "\<lambda>s. if s = ''two'' then Some two_article_document else None"]
  by simp

text \<open>
  Claim C6, as the specification states it, says that a lookup outside the range fails
  with NotFound. \<^verbatim>\<open>show_article\<close> does not: with two articles and index 5 it returns
  normally, having printed nothing.
\<close>

theorem show_article_out_of_range_counterexample:
  "length (list_articles two_article_manager) = 2 \<and>
   show_article two_article_manager 5 = (Inr [], two_article_manager) \<and>
   \<not> isl (fst (show_article two_article_manager 5))"
  by (simp add: show_article_def list_articles_def Let_def two_article_manager_def
      two_article_document_def)

text \<open>
  Claim C6, amended. With an index in the range, \<^verbatim>\<open>show_article\<close> prints the header
  and the fields of the article record at that position, counted from 0; with an index
  outside the range it prints nothing; in both cases it returns normally, raising nothing,
  and leaves the manager as it is.
\<close>

theorem show_article_cases:
  "(0 \<le> i \<and> i < int (length (list_articles m)) \<longrightarrow>
      show_article m i =
        (Inr [show_article_header, show_article_body (list_articles m ! nat i)], m)) \<and>
   (\<not> (0 \<le> i \<and> i < int (length (list_articles m))) \<longrightarrow> show_article m i = (Inr [], m)) \<and>
   \<not> isl (fst (show_article m i))"
  by (simp add: show_article_def list_articles_def Let_def)

theorem show_article_cases_witness:
  "show_article two_article_manager 1 =
     (Inr [show_article_header,
           show_article_body
             \<lparr>title = ''Second'', content = ''Post'', author = ''ana@x.com'',
              category = ''Tech'', published_at = ''2026-11-04 09:06:00''\<rparr>],
      two_article_manager) \<and>
   show_article two_article_manager 2 = (Inr [], two_article_manager)"
proof -
  have l: "list_articles two_article_manager =
     [\<lparr>title = ''Hello'', content = ''World'', author = ''ana@x.com'',
          category = ''Tech'', published_at = ''2026-11-04 09:05:07''\<rparr>,
      \<lparr>title = ''Second'', content = ''Post'', author = ''ana@x.com'',
          category = ''Tech'', published_at = ''2026-11-04 09:06:00''\<rparr>]"
    by (simp add: list_articles_def two_article_manager_def two_article_document_def)
  show ?thesis
    using show_article_cases [of 1 two_article_manager] show_article_cases [of 2 two_article_manager]
    by (simp add: l)
qed

text \<open>
  Claim C7. On the manager of the empty document, the call for Ana's article Hello leaves
  one article record, with the title, the content, the email, the category name and the
  formatted time of the call, which is the time of publication of the Article returned;
  a call that raises an exception raises the one of \<^verbatim>\<open>save\<close>, whichever it is, on
  the manager already changed. The second call for the same email and category leaves one
  author record, one category record and two article records. The time is formatted as
  year-month-day hour:minute:second.
\<close>

theorem add_article_scenario:
  "(case add_article jd (empty_manager p) fs ''Ana'' ''ana@x.com'' ''Tech'' ''Hello'' ''World'' now1 of
      (r1, m1, fs1) \<Rightarrow>
        list_articles m1 =
          [\<lparr>title = ''Hello'', content = ''World'', author = ''ana@x.com'', category = ''Tech'',
            published_at = strftime now1\<rparr>] \<and>
        (case r1 of Inr a \<Rightarrow> Article_published_at a = Some now1
         | Inl x \<Rightarrow> save jd m1 fs = Inl x) \<and>
        (case add_article jd m1 fs1 ''Ana'' ''ana@x.com'' ''Tech'' ''Second'' ''Post'' now2 of
           (r2, m2, fs2) \<Rightarrow>
             authors (data m2) = [\<lparr>au_name = ''Ana'', au_email = ''ana@x.com''\<rparr>] \<and>
             categories (data m2) = [\<lparr>ca_name = ''Tech''\<rparr>] \<and>
             length (list_articles m2) = 2 \<and>
             list_articles m2 =
               [\<lparr>title = ''Hello'', content = ''World'', author = ''ana@x.com'',
                 category = ''Tech'', published_at = strftime now1\<rparr>,
                \<lparr>title = ''Second'', content = ''Post'', author = ''ana@x.com'',
                 category = ''Tech'', published_at = strftime now2\<rparr>])) \<and>
   strftime \<lparr>year = 2026, month = 11, day = 4, hour = 9, minute = 5, second = 7,
             microsecond = 123456\<rparr> = ''2026-11-04 09:05:07''"
proof -
  define c1 where "c1 = \<lparr>c_name = ''Ana'', c_email = ''ana@x.com'', c_category = ''Tech'',
      c_title = ''Hello'', c_content = ''World'', c_now = now1\<rparr>"
  define c2 where "c2 = \<lparr>c_name = ''Ana'', c_email = ''ana@x.com'', c_category = ''Tech'',
      c_title = ''Second'', c_content = ''Post'', c_now = now2\<rparr>"
  obtain r1 m1 fs1 where run1:
    "add_article jd (empty_manager p) fs ''Ana'' ''ana@x.com'' ''Tech'' ''Hello'' ''World'' now1 = (r1, m1, fs1)"
    by (cases "add_article jd (empty_manager p) fs ''Ana'' ''ana@x.com'' ''Tech'' ''Hello'' ''World'' now1")
  obtain r2 m2 fs2 where run2:
    "add_article jd m1 fs1 ''Ana'' ''ana@x.com'' ''Tech'' ''Second'' ''Post'' now2 = (r2, m2, fs2)"
    by (cases "add_article jd m1 fs1 ''Ana'' ''ana@x.com'' ''Tech'' ''Second'' ''Post'' now2")
  have call1: "add_article_call jd (empty_manager p) fs c1 = (r1, m1, fs1)"
    by (simp add: add_article_call_def c1_def run1)
  have call2: "add_article_call jd m1 fs1 c2 = (r2, m2, fs2)"
    by (simp add: add_article_call_def c2_def run2)
  have s1: "in_sync m1" by (rule add_article_call_in_sync [OF empty_manager_in_sync call1])
  have ar1: "articles (data m1) = [call_record c1]"
    using add_article_call_record [OF empty_manager_in_sync call1]
    by (simp add: empty_manager_articles)
  have au1: "authors (data m1) = [\<lparr>au_name = ''Ana'', au_email = ''ana@x.com''\<rparr>]"
    using add_article_call_authors [OF empty_manager_in_sync call1]
    by (simp add: empty_manager_def empty_document_def c1_def)
  have ca1: "categories (data m1) = [\<lparr>ca_name = ''Tech''\<rparr>]"
    using add_article_call_categories [OF empty_manager_in_sync call1]
    by (simp add: empty_manager_def empty_document_def c1_def)
  have ar2: "articles (data m2) = [call_record c1, call_record c2]"
    using add_article_call_record [OF s1 call2] by (simp add: ar1)
  have au2: "authors (data m2) = [\<lparr>au_name = ''Ana'', au_email = ''ana@x.com''\<rparr>]"
    using add_article_call_authors [OF s1 call2] by (simp add: au1 c2_def)
  have ca2: "categories (data m2) = [\<lparr>ca_name = ''Tech''\<rparr>]"
    using add_article_call_categories [OF s1 call2] by (simp add: ca1 c2_def)
  have ret: "case r1 of Inr a \<Rightarrow> Article_published_at a = Some now1
         | Inl x \<Rightarrow> save jd m1 fs = Inl x"
  proof (cases r1)
    case (Inl x)
    from add_article_save [OF run1] Inl show ?thesis
      by (auto split: sum.splits)
  next
    case (Inr a)
    obtain a0 as1 where ga: "get_or_create_author ''Ana'' ''ana@x.com'' (self_authors (empty_manager p)) = (a0, as1)"
      by (cases "get_or_create_author ''Ana'' ''ana@x.com'' (self_authors (empty_manager p))")
    obtain c0 cs1 where gc: "get_or_create_category ''Tech'' (self_categories (empty_manager p)) = (c0, cs1)"
      by (cases "get_or_create_category ''Tech'' (self_categories (empty_manager p))")
    from run1 Inr have "add_article jd (empty_manager p) fs ''Ana'' ''ana@x.com'' ''Tech'' ''Hello'' ''World'' now1 = (Inr a, m1, fs1)"
      by simp
    from add_article_returned [OF ga gc this] Inr show ?thesis by simp
  qed
  show ?thesis
    using ret
    by (simp add: run1 run2 list_articles_def ar1 ar2 au2 ca2 call_record_def c1_def c2_def
        strftime_example)
qed

text \<open>
  Claim C8. When \<^verbatim>\<open>save\<close> succeeds, and \<^verbatim>\<open>json.load\<close> gives back the document from
  the text that \<^verbatim>\<open>json.dump\<close> writes for it, \<^verbatim>\<open>load\<close> on the files that \<^verbatim>\<open>save\<close>
  leaves returns the document of the manager.
\<close>

theorem save_then_load:
  assumes "save jd m fs = Inr fs'"
    and "jl (jd (data m)) = Some (data m)"
  shows "load jl (filepath m) fs' = Inr (data m)"
  using assms by (auto simp: save_def load_def open_w_def open_r_def split: file_state.splits)

theorem save_then_load_witness:
  "save (\<lambda>d. ''two'') two_article_manager (\<lambda>p. Absent) =
     Inr ((\<lambda>p. Absent)(''database.json'' := Content ''two'')) \<and>
   load (\<lambda>s. if s = ''two'' then Some two_article_document else None) ''database.json''
     ((\<lambda>p. Absent)(''database.json'' := Content ''two'')) = Inr two_article_document"
proof -
  have s: "save (\<lambda>d. ''two'') two_article_manager (\<lambda>p. Absent) =
     Inr ((\<lambda>p. Absent)(''database.json'' := Content ''two''))"
    by (simp add: save_def open_w_def two_article_manager_def)
  have j: "(\<lambda>s. if s = ''two'' then Some two_article_document else None)
             ((\<lambda>d. ''two'') (data two_article_manager)) = Some (data two_article_manager)"
    by (simp add: two_article_manager_def)
  have f: "filepath two_article_manager = ''database.json''" "data two_article_manager = two_article_document"
    by (simp_all add: two_article_manager_def)
  show ?thesis
    using s j
      save_then_load [where jd = "\<lambda>d. ''two''" and m = two_article_manager
        and fs = "\<lambda>p. Absent" and fs' = "(\<lambda>p. Absent)(''database.json'' := Content ''two'')"
        and jl = "\<lambda>s. if s = ''two'' then Some two_article_document else None"]
    unfolding f by simp
qed



text \<open>
  Claim C10, as stated, says that a negative index yields NotFound. \<^verbatim>\<open>show_article\<close>
  with index -1 returns normally, having printed nothing.
\<close>

theorem show_article_negative_counterexample:
  "show_article two_article_manager (- 1) = (Inr [], two_article_manager) \<and>
   \<not> isl (fst (show_article two_article_manager (- 1)))"
  by (simp add: show_article_def Let_def)

text \<open>
  Claim C10, amended. With a negative index \<^verbatim>\<open>show_article\<close> prints nothing and
  returns normally: it does not print the last article, and it leaves the manager as it
  is. Entering 0 in \<^verbatim>\<open>ReadArticleCommand\<close> gives the index -1, and so prints nothing.
\<close>

theorem show_article_negative:
  assumes "i < 0"
  shows "show_article m i = (Inr [], m) \<and> \<not> isl (fst (show_article m i)) \<and>
         (list_articles m \<noteq> [] \<longrightarrow>
            fst (show_article m i) \<noteq>
              Inr [show_article_header, show_article_body (last (list_articles m))]) \<and>
         (i = 0 - 1 \<longrightarrow> ReadArticleCommand_select m 0 = (Inr [], m))"
  using assms by (simp add: show_article_def list_articles_def Let_def ReadArticleCommand_select_def)

theorem show_article_negative_witness:
  "(- 1 :: int) < 0 \<and> show_article two_article_manager (- 1) = (Inr [], two_article_manager) \<and>
   ReadArticleCommand_select two_article_manager 0 = (Inr [], two_article_manager)"
  using show_article_negative [of "- 1" two_article_manager] by simp


end
